theory Spec2Isabelle
  imports Main "HOL-Library.Sublist"
begin

section \<open>Go standard library functions used by the package\<close>

text \<open>
  The package calls a handful of functions of Go's standard library. Go strings are byte
  sequences and \<open>len\<close> counts bytes, so a Go string is a \<^typ>\<open>string\<close> here and
  \<open>len\<close> is \<^const>\<open>length\<close>.
\<close>

text \<open>\<open>strings.HasPrefix(s, p)\<close> is \<^term>\<open>prefix p s\<close>.\<close>

text \<open>\<open>strings.TrimPrefix(s, p)\<close>: \<open>s\<close> without the leading \<open>p\<close>, or \<open>s\<close> itself.\<close>

definition TrimPrefix :: "string \<Rightarrow> string \<Rightarrow> string" where
  "TrimPrefix s p = (if prefix p s then drop (length p) s else s)"

text \<open>
  \<open>strings.Split(s, sep)\<close> for a separator of one byte, the only way the package calls it:
  the pieces of \<open>s\<close> between the separators, one more piece than there are separators
  (so \<open>Split "" "-"\<close> is the one-element slice holding the empty string).
\<close>

fun Split :: "string \<Rightarrow> char \<Rightarrow> string list" where
  "Split [] sep = [] # []"
| "Split (c # cs) sep =
     (if c = sep then [] # Split cs sep
      else (case Split cs sep of [] \<Rightarrow> [c] # [] | w # ws \<Rightarrow> (c # w) # ws))"

text \<open>
  \<open>strconv.ParseUint(s, 10, 64)\<close> reads the bytes from the left; a byte that is not a
  decimal digit is a syntax error, a value above \<open>2^64 - 1\<close> is a range error. The loop
  below carries the value read so far as a natural number; \<open>None\<close> is either error.
\<close>

definition is_digit :: "char \<Rightarrow> bool" where
  "is_digit c = (c \<in> set ''0123456789'')"

definition digit_val :: "char \<Rightarrow> nat" where
  "digit_val c = of_char c - 48"

definition maxUint64 :: nat where
  "maxUint64 = 2 ^ 64 - 1"

fun ParseUint_loop :: "string \<Rightarrow> nat \<Rightarrow> nat option" where
  "ParseUint_loop [] n = Some n"
| "ParseUint_loop (c # cs) n =
     (if \<not> is_digit c then None
      else if n * 10 + digit_val c > maxUint64 then None
      else ParseUint_loop cs (n * 10 + digit_val c))"

definition ParseUint :: "string \<Rightarrow> nat option" where
  "ParseUint s = (if s = [] then None else ParseUint_loop s 0)"

text \<open>
  \<open>strconv.ParseInt(s, 10, 64)\<close>: an optional sign, then \<open>ParseUint\<close>; the magnitude must
  fit \<open>int64\<close>. The package only tests whether the error is nil, so \<open>None\<close> stands for
  every error.
\<close>

definition ParseInt :: "string \<Rightarrow> int option" where
  "ParseInt s =
     (if s = [] then None
      else
        let neg = (hd s = CHR ''-'');
            s' = (if hd s = CHR ''+'' \<or> hd s = CHR ''-'' then tl s else s)
        in case ParseUint s' of
             None \<Rightarrow> None
           | Some un \<Rightarrow>
               if \<not> neg \<and> un \<ge> 2 ^ 63 then None
               else if neg \<and> un > 2 ^ 63 then None
               else Some (if neg then - int un else int un))"

text \<open>
  \<open>path/filepath\<close> depends on the host (separator, working directory), so the package's
  functions take the six functions they call as a record. \<open>filepath.Abs\<close> also returns an
  error, which \<open>NewConfigFromData\<close> discards; \<open>Join\<close> takes its variadic arguments as a list.
\<close>

record filepath =
  Abs :: "string \<Rightarrow> string"
  Base :: "string \<Rightarrow> string"
  Clean :: "string \<Rightarrow> string"
  Dir :: "string \<Rightarrow> string"
  Join :: "string list \<Rightarrow> string"
  ToSlash :: "string \<Rightarrow> string"

text \<open>
  The functions as they behave on a Unix host, where the separator is \<open>/\<close> and there is no
  volume name. \<open>Clean\<close> drops empty and \<open>.\<close> elements, lets \<open>..\<close> remove the element
  before it (at the root it is dropped, at the start of a relative path it stays), and turns
  an empty result into \<open>.\<close>. The elements kept so far are held in reverse.
\<close>

fun clean_elems :: "bool \<Rightarrow> string list \<Rightarrow> string list \<Rightarrow> string list" where
  "clean_elems rooted [] out = rev out"
| "clean_elems rooted (e # es) out =
     (if e = [] \<or> e = ''.'' then clean_elems rooted es out
      else if e = ''..'' then
        (case out of
           [] \<Rightarrow> clean_elems rooted es (if rooted then [] else [''..''])
         | e' # below \<Rightarrow>
             if e' = ''..'' then clean_elems rooted es (''..'' # out)
             else clean_elems rooted es below)
      else clean_elems rooted es (e # out))"

fun join_elems :: "string list \<Rightarrow> string" where
  "join_elems [] = []"
| "join_elems [e] = e"
| "join_elems (e # es) = e @ ''/'' @ join_elems es"

definition unix_Clean :: "string \<Rightarrow> string" where
  "unix_Clean path =
     (if path = [] then ''.''
      else
        let rooted = (hd path = CHR ''/'');
            out = (if rooted then ''/'' else []) @ join_elems (clean_elems rooted (Split path (CHR ''/'')) [])
        in if out = [] then ''.'' else out)"

definition unix_Join :: "string list \<Rightarrow> string" where
  "unix_Join elem =
     (case dropWhile (\<lambda>e. e = []) elem of
        [] \<Rightarrow> []
      | es \<Rightarrow> unix_Clean (join_elems es))"

definition unix_Base :: "string \<Rightarrow> string" where
  "unix_Base path =
     (if path = [] then ''.''
      else
        let stripped = rev (dropWhile (\<lambda>c. c = CHR ''/'') (rev path));
            name = rev (takeWhile (\<lambda>c. c \<noteq> CHR ''/'') (rev stripped))
        in if name = [] then ''/'' else name)"

definition unix_Dir :: "string \<Rightarrow> string" where
  "unix_Dir path = unix_Clean (rev (dropWhile (\<lambda>c. c \<noteq> CHR ''/'') (rev path)))"

definition unix_Abs :: "string \<Rightarrow> string \<Rightarrow> string" where
  "unix_Abs wd path =
     (if prefix ''/'' path then unix_Clean path else unix_Join [wd, path])"

definition unix_filepath :: "string \<Rightarrow> filepath" where
  "unix_filepath wd = \<lparr>Abs = unix_Abs wd, Base = unix_Base, Clean = unix_Clean,
     Dir = unix_Dir, Join = unix_Join, ToSlash = (\<lambda>path. path)\<rparr>"

section \<open>Package version: \<open>internal/version/version.go\<close>\<close>

record Version =
  Major :: int
  Minor :: int
  Micro :: int
  IsDev :: bool
  IsPatch :: bool
  IsAlpha :: bool
  IsBeta :: bool
  IsRC :: bool

text \<open>The zero value \<open>&Version{}\<close> that \<open>NewVersion\<close> starts from.\<close>

definition zero_Version :: Version where
  "zero_Version = \<lparr>Major = 0, Minor = 0, Micro = 0, IsDev = False, IsPatch = False,
     IsAlpha = False, IsBeta = False, IsRC = False\<rparr>"

text \<open>
  The errors \<open>NewVersion\<close> builds with \<open>fmt.Errorf\<close>, one constructor for each message
  format, and the message each one carries.
\<close>

datatype version_error =
    EmptyInput
  | MalformedFormat
  | UnknownSuffix string
  | NonNumericComponent nat string

fun version_error_msg :: "version_error \<Rightarrow> string" where
  "version_error_msg EmptyInput = ''version is empty''"
| "version_error_msg MalformedFormat = ''version must be in the format [v]X.Y.Z[-suffix]''"
| "version_error_msg (UnknownSuffix s) = ''unknown version suffix '' @ [CHR 0x27] @ s @ [CHR 0x27]"
| "version_error_msg (NonNumericComponent i s) =
     ''part '' @ [char_of (48 + i)] @ '' ('' @ [CHR 0x27] @ s @ [CHR 0x27]
       @ '') of the version must be a number''"

text \<open>The \<open>switch vals[1]\<close> of \<open>NewVersion\<close>.\<close>

definition switch_suffix :: "string \<Rightarrow> Version \<Rightarrow> version_error + Version" where
  "switch_suffix s version =
     (if s = ''dev'' then Inr (version\<lparr>IsDev := True\<rparr>)
      else if s = ''patch'' \<or> s = ''p'' then Inr (version\<lparr>IsPatch := True\<rparr>)
      else if s = ''alpha'' \<or> s = ''a'' then Inr (version\<lparr>IsAlpha := True\<rparr>)
      else if s = ''beta'' \<or> s = ''b'' then Inr (version\<lparr>IsBeta := True\<rparr>)
      else if s = ''RC'' then Inr (version\<lparr>IsRC := True\<rparr>)
      else Inl (UnknownSuffix s))"

text \<open>The three \<open>strconv.ParseInt\<close> calls on the dot-separated parts, in order.\<close>

definition parse_parts :: "string list \<Rightarrow> Version \<Rightarrow> version_error + Version" where
  "parse_parts vals version =
     (case ParseInt (vals ! 0) of
        None \<Rightarrow> Inl (NonNumericComponent 1 (vals ! 0))
      | Some major \<Rightarrow>
     (case ParseInt (vals ! 1) of
        None \<Rightarrow> Inl (NonNumericComponent 2 (vals ! 1))
      | Some minor \<Rightarrow>
     (case ParseInt (vals ! 2) of
        None \<Rightarrow> Inl (NonNumericComponent 3 (vals ! 2))
      | Some micro \<Rightarrow>
          Inr (version\<lparr>Major := major, Minor := minor, Micro := micro\<rparr>))))"

definition NewVersion :: "string \<Rightarrow> version_error + Version" where
  "NewVersion val =
     (if val = [] then Inl EmptyInput
      else if length val < 5 then Inl MalformedFormat
      else
        let vals = Split (TrimPrefix val ''v'') (CHR ''-'')
        in if length vals > 2 then Inl MalformedFormat
           else
             (case (if length vals = 2 then switch_suffix (vals ! 1) zero_Version
                    else Inr zero_Version) of
                Inl e \<Rightarrow> Inl e
              | Inr version \<Rightarrow>
                  let parts = Split (vals ! 0) (CHR ''.'')
                  in if length parts \<noteq> 3 then Inl MalformedFormat
                     else parse_parts parts version))"

section \<open>Config errors: \<open>pkg/composer/errors.go\<close>\<close>

record ConfigError =
  Msg :: string
  Critical :: bool

definition ConfigError_Error :: "ConfigError \<Rightarrow> string" where
  "ConfigError_Error ce = (if Critical ce then ''<critical> '' else []) @ Msg ce"

section \<open>The manifest: \<open>pkg/composer/composer.go\<close>\<close>

record ConfigRepo =
  Type :: string
  Url :: string
  Resolved :: bool

text \<open>
  A Go map holds each key once and \<open>range\<close> visits its entries in an order that is not
  specified. \<open>Psr4\<close> is the list of the entries in the order one run of the loop visits
  them; the keys of a table are distinct.
\<close>

record Autoload =
  Psr4 :: "(string \<times> string) list"
  Files :: "string list"

text \<open>
  \<open>Checks\<close> holds Go function values that take the \<open>*Config\<close> itself. A check is an
  element of \<open>'chk\<close> here, and calling one is a function \<open>invoke\<close> given to \<open>CheckConfig\<close>.
  \<open>Version\<close> is a pointer that may be nil.
\<close>

record 'chk Config =
  Name :: string
  Description :: string
  RawVersion :: string
  Version :: "Version option"
  Type_cfg :: string
  Require :: "(string \<times> string) list"
  RequireDev :: "(string \<times> string) list"
  Reps :: "ConfigRepo list"
  Autoload :: Autoload
  AutoloadDev :: Autoload
  Path :: string
  RootDir :: string
  Checks :: "'chk list"

text \<open>The zero value \<open>&Config{}\<close>.\<close>

definition zero_Config :: "'chk Config" where
  "zero_Config = \<lparr>Name = [], Description = [], RawVersion = [], Version = None, Type_cfg = [],
     Require = [], RequireDev = [], Reps = [],
     Autoload = \<lparr>Psr4 = [], Files = []\<rparr>, AutoloadDev = \<lparr>Psr4 = [], Files = []\<rparr>,
     Path = [], RootDir = [], Checks = []\<rparr>"

text \<open>
  \<open>ConfigErrors.Config\<close> is a pointer to the manifest, nil when it is not set. The
  findings in \<open>Errors\<close> are the non-nil pointers the loader and \<open>CheckConfig\<close> add.
\<close>

record 'chk ConfigErrors =
  Config :: "'chk Config option"
  Errors :: "ConfigError list"

definition NewConfigErrors :: "ConfigError list \<Rightarrow> 'chk ConfigErrors" where
  "NewConfigErrors errors = \<lparr>Config = None, Errors = errors\<rparr>"

definition Add :: "'chk ConfigErrors \<Rightarrow> ConfigError \<Rightarrow> 'chk ConfigErrors" where
  "Add ce err = ce\<lparr>Errors := Errors ce @ [err]\<rparr>"

definition Len :: "'chk ConfigErrors \<Rightarrow> nat" where
  "Len ce = length (Errors ce)"

text \<open>
  \<open>ConfigErrors.Error\<close> reads \<open>ce.Config.Path\<close> once for each finding; on a nil \<open>Config\<close>
  that read is a nil pointer dereference and the call panics.
\<close>

datatype panic = NilPointerDereference

fun ConfigErrors_Error_loop ::
  "'chk Config option \<Rightarrow> ConfigError list \<Rightarrow> string \<Rightarrow> panic + string" where
  "ConfigErrors_Error_loop cfg [] res = Inr res"
| "ConfigErrors_Error_loop cfg (e # es) res =
     (case cfg of
        None \<Rightarrow> Inl NilPointerDereference
      | Some c \<Rightarrow>
          ConfigErrors_Error_loop cfg es
            (res @ ''config '' @ Path c @ '': '' @ ConfigError_Error e @ [CHR 0x0A]))"

definition ConfigErrors_Error :: "'chk ConfigErrors \<Rightarrow> panic + string" where
  "ConfigErrors_Error ce = ConfigErrors_Error_loop (Config ce) (Errors ce) []"

text \<open>The namespace separator, the one-byte string \<open>`\`\<close> of the source.\<close>

definition backslash :: string where
  "backslash = [CHR 0x5C]"

text \<open>
  The \<open>range\<close> loop of \<open>Autoload.Psr4PathForNamespace\<close> over the entries still to visit,
  carrying \<open>psrNameForFound\<close> and \<open>foundPath\<close>.
\<close>

fun Psr4_loop :: "string \<Rightarrow> (string \<times> string) list \<Rightarrow> string \<times> string \<Rightarrow> string \<times> string" where
  "Psr4_loop name [] found = found"
| "Psr4_loop name ((psrName, psrPath) # rest) (psrNameForFound, foundPath) =
     (if prefix psrName name then
        (if length psrName > length psrNameForFound
         then Psr4_loop name rest (psrName, psrPath)
         else Psr4_loop name rest (psrNameForFound, foundPath))
      else Psr4_loop name rest (psrNameForFound, foundPath))"

definition Autoload_Psr4PathForNamespace :: "Autoload \<Rightarrow> string \<Rightarrow> string \<times> bool" where
  "Autoload_Psr4PathForNamespace a name =
     (let foundPath = snd (Psr4_loop (name @ backslash) (Psr4 a) ([], []))
      in if foundPath = [] then ([], False) else (foundPath, True))"

definition Config_Psr4PathForNamespace ::
  "filepath \<Rightarrow> 'chk Config \<Rightarrow> string \<Rightarrow> string \<times> bool" where
  "Config_Psr4PathForNamespace fp c name =
     (let dir = Base fp (RootDir c) in
      case Autoload_Psr4PathForNamespace (Autoload c) name of
        (path, True) \<Rightarrow> (dir @ ''/'' @ path, True)
      | (_, False) \<Rightarrow>
          (case Autoload_Psr4PathForNamespace (AutoloadDev c) name of
             (path, True) \<Rightarrow> (dir @ ''/'' @ path, True)
           | (_, False) \<Rightarrow> ([], False)))"

text \<open>
  \<open>NewConfigFromData\<close>. \<open>json.Unmarshal\<close> is the parameter \<open>unmarshal\<close>: the message of
  its error, or the decoded manifest. \<open>configErrors.Config\<close> points to the manifest that is
  returned, so it holds the manifest as the function leaves it.
\<close>

definition NewConfigFromData ::
  "filepath \<Rightarrow> (string \<Rightarrow> string + 'chk Config) \<Rightarrow> string \<Rightarrow> string
     \<Rightarrow> 'chk Config \<times> 'chk ConfigErrors option" where
  "NewConfigFromData fp unmarshal data configPath =
     (case unmarshal data of
        Inl err \<Rightarrow> (zero_Config, Some (NewConfigErrors [\<lparr>Msg = err, Critical = True\<rparr>]))
      | Inr decoded \<Rightarrow>
          let result = NewVersion (RawVersion decoded);
              absPath = Abs fp configPath;
              root = Dir fp absPath;
              config = decoded\<lparr>Version := (case result of Inl err \<Rightarrow> None | Inr v \<Rightarrow> Some v),
                         Path := absPath, RootDir := root\<rparr>;
              configErrors =
                (case result of
                   Inl err \<Rightarrow> Add \<lparr>Config = Some config, Errors = []\<rparr>
                                \<lparr>Msg = version_error_msg err, Critical = False\<rparr>
                 | Inr v \<Rightarrow> \<lparr>Config = Some config, Errors = []\<rparr>)
          in if Len configErrors \<noteq> 0 then (config, Some configErrors) else (config, None))"





text \<open>\<open>ResolveUrl\<close> changes the entry in place and returns it; the result is the entry after the call.\<close>

definition ResolveUrl :: "filepath \<Rightarrow> ConfigRepo \<Rightarrow> string \<Rightarrow> ConfigRepo" where
  "ResolveUrl fp c path =
     (if Resolved c then c
      else if Type c \<noteq> ''path'' then c
      else c\<lparr>Url := ToSlash fp (Clean fp (Join fp [path, Url c])), Resolved := True\<rparr>)"

section \<open>Vocabulary of the properties\<close>

text \<open>A number written in decimal: a non-empty string of digits, and the number it denotes.\<close>

definition decimal :: "string \<Rightarrow> bool" where
  "decimal s = (s \<noteq> [] \<and> list_all is_digit s)"

definition dec_val :: "string \<Rightarrow> nat" where
  "dec_val s = foldl (\<lambda>n c. n * 10 + digit_val c) 0 s"

definition recognised_suffixes :: "string set" where
  "recognised_suffixes = {''dev'', ''patch'', ''p'', ''alpha'', ''a'', ''beta'', ''b'', ''RC''}"

text \<open>
  A version string without its leading \<open>v\<close>: the part before the first \<open>-\<close>, and what
  follows that \<open>-\<close>.
\<close>

definition numeric_part :: "string \<Rightarrow> string" where
  "numeric_part val = takeWhile (\<lambda>c. c \<noteq> CHR ''-'') (TrimPrefix val ''v'')"

definition suffix_part :: "string \<Rightarrow> string" where
  "suffix_part val = tl (dropWhile (\<lambda>c. c \<noteq> CHR ''-'') (TrimPrefix val ''v''))"



section \<open>Example inputs\<close>

text \<open>
  A manifest, a decoder that knows two inputs (the empty object, and an opening brace that
  \<open>json.Unmarshal\<close> rejects) and three checks, for evaluating the functions.
\<close>

definition example_manifest :: "nat Config" where
  "example_manifest = zero_Config
     \<lparr>Autoload := \<lparr>Psr4 = [(''My'' @ backslash @ ''Core'' @ backslash, ''src'')], Files = []\<rparr>,
      AutoloadDev := \<lparr>Psr4 = [(''My'' @ backslash @ ''Tests'' @ backslash, ''tests'')], Files = []\<rparr>,
      RootDir := ''/proj/app''\<rparr>"

definition example_unmarshal :: "string \<Rightarrow> string + nat Config" where
  "example_unmarshal data =
     (if data = ''{}'' then Inr zero_Config else Inl ''unexpected end of JSON input'')"


section \<open>Version parsing\<close>

subsection \<open>Splitting and number parsing\<close>

lemma Split_nonempty: "Split s c \<noteq> []"
  by (induction s) (auto split: list.splits)

lemma length_Split: "length (Split s c) = Suc (count_list s c)"
  by (induction s) (auto split: list.splits simp: Split_nonempty)

lemma Split_no_sep: "c \<notin> set s \<Longrightarrow> Split s c = [s]"
  by (induction s) auto

lemma Split_append_sep: "c \<notin> set xs \<Longrightarrow> Split (xs @ c # ys) c = xs # Split ys c"
  by (induction xs) auto

lemma hd_Split: "hd (Split s c) = takeWhile (\<lambda>x. x \<noteq> c) s"
  by (induction s) (auto split: list.splits simp: Split_nonempty)

lemma is_digit_not_punct:
  "is_digit c \<Longrightarrow> c \<noteq> CHR ''-'' \<and> c \<noteq> CHR ''.'' \<and> c \<noteq> CHR ''+'' \<and> c \<noteq> CHR ''v''"
  by (auto simp: is_digit_def)

lemma decimal_no_punct:
  "decimal s \<Longrightarrow> CHR ''-'' \<notin> set s \<and> CHR ''.'' \<notin> set s"
  using is_digit_not_punct by (auto simp: decimal_def list_all_iff)

lemma decimal_hd:
  "decimal s \<Longrightarrow> hd s \<noteq> CHR ''-'' \<and> hd s \<noteq> CHR ''+'' \<and> hd s \<noteq> CHR ''v''"
  using is_digit_not_punct by (cases s) (auto simp: decimal_def)

lemma foldl_digits_ge: "n \<le> foldl (\<lambda>n c. n * 10 + digit_val c) n s"
proof (induction s arbitrary: n)
  case Nil
  show ?case by simp
next
  case (Cons c cs)
  have "n \<le> n * 10 + digit_val c" by simp
  also have "\<dots> \<le> foldl (\<lambda>n c. n * 10 + digit_val c) (n * 10 + digit_val c) cs"
    by (rule Cons.IH)
  finally show ?case by simp
qed

lemma ParseUint_loop_digits:
  "list_all is_digit s \<Longrightarrow> foldl (\<lambda>n c. n * 10 + digit_val c) n s \<le> maxUint64
     \<Longrightarrow> ParseUint_loop s n = Some (foldl (\<lambda>n c. n * 10 + digit_val c) n s)"
proof (induction s arbitrary: n)
  case Nil
  show ?case by simp
next
  case (Cons c cs)
  have "n * 10 + digit_val c \<le> foldl (\<lambda>n c. n * 10 + digit_val c) (n * 10 + digit_val c) cs"
    by (rule foldl_digits_ge)
  with Cons.prems have "n * 10 + digit_val c \<le> maxUint64" by simp
  with Cons show ?case by simp
qed

lemma ParseInt_decimal:
  assumes "decimal s" and "dec_val s < 2 ^ 63"
  shows "ParseInt s = Some (int (dec_val s))"
proof -
  from assms(2) have "dec_val s \<le> maxUint64" by (simp add: maxUint64_def)
  with assms(1) have "ParseUint s = Some (dec_val s)"
    by (simp add: ParseUint_def decimal_def dec_val_def ParseUint_loop_digits)
  with assms decimal_hd [OF assms(1)] show ?thesis
    by (simp add: ParseInt_def decimal_def)
qed



subsection \<open>Well-formed version strings\<close>

lemma Split_core:
  assumes "decimal xs" "decimal ys" "decimal zs"
  shows "Split (xs @ CHR ''.'' # ys @ CHR ''.'' # zs) (CHR ''.'') = [xs, ys, zs]"
  using assms decimal_no_punct [of xs] decimal_no_punct [of ys] decimal_no_punct [of zs]
  by (simp add: Split_append_sep Split_no_sep)

lemma core_no_dash:
  assumes "decimal xs" "decimal ys" "decimal zs"
  shows "CHR ''-'' \<notin> set (xs @ CHR ''.'' # ys @ CHR ''.'' # zs)"
  using assms decimal_no_punct [of xs] decimal_no_punct [of ys] decimal_no_punct [of zs]
  by simp

lemma core_length:
  assumes "decimal xs" "decimal ys" "decimal zs"
  shows "5 \<le> length (xs @ CHR ''.'' # ys @ CHR ''.'' # zs)"
proof -
  from assms have "1 \<le> length xs" "1 \<le> length ys" "1 \<le> length zs"
    by (auto simp: decimal_def Suc_le_eq)
  then show ?thesis by simp
qed

lemma TrimPrefix_core:
  assumes "decimal xs"
  shows "TrimPrefix (xs @ rest) ''v'' = xs @ rest"
    and "TrimPrefix (CHR ''v'' # xs @ rest) ''v'' = xs @ rest"
proof -
  from assms obtain c cs where xs: "xs = c # cs" and c: "c \<noteq> CHR ''v''"
    using decimal_hd [OF assms] by (cases xs) (auto simp: decimal_def)
  show "TrimPrefix (xs @ rest) ''v'' = xs @ rest"
    using c by (simp add: TrimPrefix_def xs)
  show "TrimPrefix (CHR ''v'' # xs @ rest) ''v'' = xs @ rest"
    by (simp add: TrimPrefix_def)
qed

lemma parse_parts_core:
  assumes "decimal xs" "decimal ys" "decimal zs"
    and "dec_val xs < 2 ^ 63" "dec_val ys < 2 ^ 63" "dec_val zs < 2 ^ 63"
  shows "parse_parts [xs, ys, zs] v = Inr (v\<lparr>Major := int (dec_val xs), Minor := int (dec_val ys), Micro := int (dec_val zs)\<rparr>)"
  using assms by (simp add: parse_parts_def ParseInt_decimal)

lemma NewVersion_no_suffix:
  assumes "val \<noteq> []" "5 \<le> length val"
    and "Split (TrimPrefix val ''v'') (CHR ''-'') = [core]"
    and "Split core (CHR ''.'') = [xs, ys, zs]"
  shows "NewVersion val = parse_parts [xs, ys, zs] zero_Version"
  using assms by (simp add: NewVersion_def)



lemma NewVersion_plain:
  assumes "decimal xs" "decimal ys" "decimal zs"
    and "dec_val xs < 2 ^ 63" "dec_val ys < 2 ^ 63" "dec_val zs < 2 ^ 63"
    and "p = [] \<or> p = ''v''"
  shows "NewVersion (p @ xs @ CHR ''.'' # ys @ CHR ''.'' # zs) =
    Inr (zero_Version\<lparr>Major := int (dec_val xs), Minor := int (dec_val ys), Micro := int (dec_val zs)\<rparr>)"
proof -
  define core where "core = xs @ CHR ''.'' # ys @ CHR ''.'' # zs"
  have len: "5 \<le> length (p @ core)" "p @ core \<noteq> []"
    using core_length [OF assms(1-3)] by (auto simp: core_def)
  have trim: "TrimPrefix (p @ core) ''v'' = core"
    using assms(7) TrimPrefix_core [OF assms(1)] by (auto simp: core_def)
  have dash: "Split core (CHR ''-'') = [core]"
    unfolding core_def by (rule Split_no_sep) (rule core_no_dash [OF assms(1-3)])
  have dots: "Split core (CHR ''.'') = [xs, ys, zs]"
    unfolding core_def by (rule Split_core [OF assms(1-3)])
  have "NewVersion (p @ core) = parse_parts [xs, ys, zs] zero_Version"
    by (rule NewVersion_no_suffix [OF len(2) len(1) _ dots]) (simp only: trim dash)
  then show ?thesis
    by (simp only: core_def parse_parts_core [OF assms(1-6)])
qed








subsection \<open>Malformed strings and the suffix flags\<close>

lemma Split_one_sep:
  "count_list s c = 1 \<Longrightarrow>
     Split s c = [takeWhile (\<lambda>x. x \<noteq> c) s, tl (dropWhile (\<lambda>x. x \<noteq> c) s)]"
proof (induction s)
  case Nil
  then show ?case by simp
next
  case (Cons x xs)
  show ?case
  proof (cases "x = c")
    case True
    with Cons.prems have "count_list xs c = 0" by simp
    then have "c \<notin> set xs" by (simp add: count_list_0_iff)
    with True show ?thesis by (simp add: Split_no_sep)
  next
    case False
    with Cons show ?thesis by simp
  qed
qed

lemma count_list_TrimPrefix_v:
  "c \<noteq> CHR ''v'' \<Longrightarrow> count_list (TrimPrefix val ''v'') c = count_list val c"
  by (cases val) (auto simp: TrimPrefix_def)

lemma switch_suffix_recognised:
  "t \<in> recognised_suffixes \<Longrightarrow> \<exists>v. switch_suffix t v0 = Inr v"
  by (auto simp: recognised_suffixes_def switch_suffix_def)

lemma NewVersion_malformed_aux:
  assumes "val \<noteq> []"
    and "length val < 5
         \<or> 2 \<le> count_list val (CHR ''-'')
         \<or> ((count_list val (CHR ''-'') = 1 \<longrightarrow> suffix_part val \<in> recognised_suffixes)
            \<and> count_list (numeric_part val) (CHR ''.'') \<noteq> 2)"
  shows "NewVersion val = Inl MalformedFormat"
proof -
  define s where "s = TrimPrefix val ''v''"
  have cnt: "count_list s (CHR ''-'') = count_list val (CHR ''-'')"
    unfolding s_def by (rule count_list_TrimPrefix_v) simp
  have len: "length (Split s (CHR ''-'')) = Suc (count_list val (CHR ''-''))"
    by (simp add: length_Split cnt)
  consider (short) "length val < 5"
    | (many) "\<not> length val < 5" "2 \<le> count_list val (CHR ''-'')"
    | (none) "\<not> length val < 5" "count_list val (CHR ''-'') = 0"
        "count_list (numeric_part val) (CHR ''.'') \<noteq> 2"
    | (one) "\<not> length val < 5" "count_list val (CHR ''-'') = 1"
        "suffix_part val \<in> recognised_suffixes"
        "count_list (numeric_part val) (CHR ''.'') \<noteq> 2"
    using assms(2) by (cases "count_list val (CHR ''-'')" rule: nat.exhaust
        [case_names 0 Suc]) (auto simp: Suc_le_eq)
  then show ?thesis
  proof cases
    case short
    with assms(1) show ?thesis by (simp add: NewVersion_def)
  next
    case many
    with assms(1) len show ?thesis by (simp add: NewVersion_def s_def [symmetric])
  next
    case none
    then have "CHR ''-'' \<notin> set s" using cnt by (simp add: count_list_0_iff)
    then have sp: "Split s (CHR ''-'') = [s]"
      by (rule Split_no_sep)
    from \<open>CHR ''-'' \<notin> set s\<close> have "takeWhile (\<lambda>c. c \<noteq> CHR ''-'') s = s"
      by (auto intro: takeWhile_eq_all_conv [THEN iffD2])
    then have np: "numeric_part val = s"
      by (simp add: numeric_part_def s_def)
    have "length (Split s (CHR ''.'')) \<noteq> 3"
      using none(3) by (simp add: length_Split np)
    with assms(1) none(1) sp show ?thesis
      by (simp add: NewVersion_def s_def [symmetric])
  next
    case one
    then have sp: "Split s (CHR ''-'') = [numeric_part val, suffix_part val]"
      using cnt by (simp add: Split_one_sep numeric_part_def suffix_part_def s_def [symmetric])
    obtain v where v: "switch_suffix (suffix_part val) zero_Version = Inr v"
      using switch_suffix_recognised [OF one(3)] by blast
    have "length (Split (numeric_part val) (CHR ''.'')) \<noteq> 3"
      using one(4) by (simp add: length_Split)
    with assms(1) one(1) sp v show ?thesis
      by (simp add: NewVersion_def s_def [symmetric])
  qed
qed







text \<open>
  Claim C2, as the code has it. For every non-empty input string, \<open>NewVersion\<close> fails with
  \<open>MalformedFormat\<close> when the string is shorter than five bytes, or holds two or more
  \<open>-\<close>, or when its part before the \<open>-\<close> (the leading \<open>v\<close> removed) does not
  consist of exactly three dot-separated components and the suffix, if there is one, is a
  recognised token. The empty string fails with \<open>EmptyInput\<close> instead, and an unrecognised
  suffix is reported as \<open>UnknownSuffix\<close> before the components are counted.
\<close>

theorem NewVersion_malformed:
  assumes "val \<noteq> []"
    and "length val < 5
         \<or> 2 \<le> count_list val (CHR ''-'')
         \<or> ((count_list val (CHR ''-'') = 1 \<longrightarrow> suffix_part val \<in> recognised_suffixes)
            \<and> count_list (numeric_part val) (CHR ''.'') \<noteq> 2)"
  shows "NewVersion val = Inl MalformedFormat"
  using assms by (rule NewVersion_malformed_aux)

theorem NewVersion_malformed_witness:
  "''1.0'' \<noteq> [] \<and> length ''1.0'' < 5 \<and> NewVersion ''1.0'' = Inl MalformedFormat
   \<and> 2 \<le> count_list ''1.0.0-s-s'' (CHR ''-'')
   \<and> NewVersion ''1.0.0-s-s'' = Inl MalformedFormat
   \<and> count_list ''1.0.0.0-dev'' (CHR ''-'') = 1 \<and> suffix_part ''1.0.0.0-dev'' \<in> recognised_suffixes
   \<and> count_list (numeric_part ''1.0.0.0-dev'') (CHR ''.'') \<noteq> 2
   \<and> NewVersion ''1.0.0.0-dev'' = Inl MalformedFormat"
  using NewVersion_malformed [of "''1.0''"] NewVersion_malformed [of "''1.0.0-s-s''"]
    NewVersion_malformed [of "''1.0.0.0-dev''"]
  by (simp add: suffix_part_def numeric_part_def recognised_suffixes_def TrimPrefix_def)

theorem NewVersion_malformed_counterexample:
  "length '''' < 5 \<and> NewVersion '''' = Inl EmptyInput
   \<and> count_list ''1.0-x'' (CHR ''-'') = 1 \<and> numeric_part ''1.0-x'' = ''1.0''
   \<and> count_list (numeric_part ''1.0-x'') (CHR ''.'') \<noteq> 2
   \<and> NewVersion ''1.0-x'' = Inl (UnknownSuffix ''x'')"
  by (simp add: NewVersion_def numeric_part_def TrimPrefix_def switch_suffix_def)

text \<open>
  Claim C5, as the code has it. For all non-negative integers X, Y, Z written in decimal
  and each at most \<open>2^63 - 1\<close>, \<open>NewVersion\<close> on \<open>X.Y.Z\<close> and on \<open>vX.Y.Z\<close> succeeds with
  major, minor and micro equal to X, Y and Z and with all five suffix flags false. A
  component of \<open>2^63\<close> or more does not fit \<open>int64\<close> and is rejected by \<open>ParseInt\<close>.
\<close>

theorem NewVersion_numbers:
  assumes "decimal xs" "decimal ys" "decimal zs"
    and "dec_val xs < 2 ^ 63" "dec_val ys < 2 ^ 63" "dec_val zs < 2 ^ 63"
  shows "NewVersion (xs @ ''.'' @ ys @ ''.'' @ zs) =
           Inr \<lparr>Major = int (dec_val xs), Minor = int (dec_val ys), Micro = int (dec_val zs),
                IsDev = False, IsPatch = False, IsAlpha = False, IsBeta = False, IsRC = False\<rparr>
       \<and> NewVersion (''v'' @ xs @ ''.'' @ ys @ ''.'' @ zs) =
           Inr \<lparr>Major = int (dec_val xs), Minor = int (dec_val ys), Micro = int (dec_val zs),
                IsDev = False, IsPatch = False, IsAlpha = False, IsBeta = False, IsRC = False\<rparr>"
  using NewVersion_plain [OF assms, of "[]"] NewVersion_plain [OF assms, of "''v''"]
  by (simp add: zero_Version_def)

theorem NewVersion_numbers_witness:
  "decimal ''2'' \<and> decimal ''5'' \<and> decimal ''1''
   \<and> dec_val ''2'' < 2 ^ 63 \<and> dec_val ''5'' < 2 ^ 63 \<and> dec_val ''1'' < 2 ^ 63
   \<and> NewVersion ''2.5.1'' =
        Inr \<lparr>Major = 2, Minor = 5, Micro = 1,
             IsDev = False, IsPatch = False, IsAlpha = False, IsBeta = False, IsRC = False\<rparr>
   \<and> NewVersion ''v2.5.1'' =
        Inr \<lparr>Major = 2, Minor = 5, Micro = 1,
             IsDev = False, IsPatch = False, IsAlpha = False, IsBeta = False, IsRC = False\<rparr>"
  using NewVersion_numbers [of "''2''" "''5''" "''1''"]
  by (simp add: decimal_def dec_val_def is_digit_def digit_val_def)

theorem NewVersion_numbers_counterexample:
  "decimal ''9223372036854775808'' \<and> dec_val ''9223372036854775808'' = 2 ^ 63
   \<and> decimal ''0''
   \<and> NewVersion ''9223372036854775808.0.0'' = Inl (NonNumericComponent 1 ''9223372036854775808'')"
  by (simp add: decimal_def dec_val_def NewVersion_def TrimPrefix_def switch_suffix_def
        parse_parts_def ParseInt_def ParseUint_def is_digit_def digit_val_def maxUint64_def)



section \<open>Namespace resolution\<close>

lemma prefix_same_length:
  assumes "prefix a s" "prefix b s" "length a = length b"
  shows "a = b"
proof -
  from assms(1) have "a = take (length a) s" by (auto simp: prefix_def)
  moreover from assms(2) have "b = take (length b) s" by (auto simp: prefix_def)
  ultimately show ?thesis using assms(3) by simp
qed

lemma Psr4_loop_result:
  assumes "Psr4_loop q t (k0, p0) = (k, p)"
  shows "((k, p) = (k0, p0) \<or> ((k, p) \<in> set t \<and> prefix k q \<and> length k0 < length k))
       \<and> (\<forall>(k', p') \<in> set t. prefix k' q \<longrightarrow> length k' \<le> length k)
       \<and> length k0 \<le> length k"
  using assms
proof (induction t arbitrary: k0 p0)
  case Nil
  then show ?case by simp
next
  case (Cons e t)
  obtain k1 p1 where e: "e = (k1, p1)" by (cases e)
  show ?case
  proof (cases "prefix k1 q \<and> length k0 < length k1")
    case True
    with Cons.prems e have "Psr4_loop q t (k1, p1) = (k, p)" by simp
    from Cons.IH [OF this] True e show ?thesis by auto
  next
    case False
    with Cons.prems e have "Psr4_loop q t (k0, p0) = (k, p)" by (auto split: if_splits)
    from Cons.IH [OF this] False e show ?thesis by auto
  qed
qed

lemma Psr4_loop_longest:
  assumes dist: "distinct (map fst t)"
    and mem: "(k, p) \<in> set t" and ne: "k \<noteq> []" and pre: "prefix k q"
    and mx: "\<forall>k' \<in> fst ` set t. prefix k' q \<longrightarrow> length k' \<le> length k"
  shows "Psr4_loop q t ([], []) = (k, p)"
proof -
  obtain k1 p1 where r: "Psr4_loop q t ([], []) = (k1, p1)"
    by (cases "Psr4_loop q t ([], [])")
  note res = Psr4_loop_result [OF r]
  from res mem pre have le: "length k \<le> length k1" by auto
  with ne have "k1 \<noteq> []" by auto
  with res have in_t: "(k1, p1) \<in> set t" and pre1: "prefix k1 q" by auto
  from in_t have "k1 \<in> fst ` set t" by force
  with mx pre1 have "length k1 \<le> length k" by blast
  with le have "k1 = k" using prefix_same_length [OF pre1 pre] by simp
  moreover from this in_t mem dist have "p1 = p" by (auto dest: eq_key_imp_eq_value)
  ultimately show ?thesis using r by simp
qed

lemma Psr4_loop_none:
  assumes "\<forall>k \<in> fst ` set t. k \<noteq> [] \<longrightarrow> \<not> prefix k q"
  shows "Psr4_loop q t ([], []) = ([], [])"
proof -
  obtain k1 p1 where r: "Psr4_loop q t ([], []) = (k1, p1)"
    by (cases "Psr4_loop q t ([], [])")
  note res = Psr4_loop_result [OF r]
  show ?thesis
  proof (rule ccontr)
    assume "Psr4_loop q t ([], []) \<noteq> ([], [])"
    with r res have "(k1, p1) \<in> set t" "prefix k1 q" "k1 \<noteq> []" by auto
    moreover from this(1) have "k1 \<in> fst ` set t" by force
    ultimately show False using assms by blast
  qed
qed

lemma Psr4_loop_order:
  assumes "distinct (map fst t)" "distinct (map fst t')" "set t' = set t"
  shows "Psr4_loop q t' ([], []) = Psr4_loop q t ([], [])"
proof -
  obtain k1 p1 where r: "Psr4_loop q t ([], []) = (k1, p1)"
    by (cases "Psr4_loop q t ([], [])")
  note res = Psr4_loop_result [OF r]
  show ?thesis
  proof (cases "(k1, p1) = ([], [])")
    case True
    with res have "\<forall>k \<in> fst ` set t'. k \<noteq> [] \<longrightarrow> \<not> prefix k q"
      using assms(3) by fastforce
    from Psr4_loop_none [OF this] r True show ?thesis by simp
  next
    case False
    with res have in_t: "(k1, p1) \<in> set t'" and pre: "prefix k1 q" and ne: "k1 \<noteq> []"
      using assms(3) by auto
    from res have "\<forall>k' \<in> fst ` set t'. prefix k' q \<longrightarrow> length k' \<le> length k1"
      using assms(3) by fastforce
    from Psr4_loop_longest [OF assms(2) in_t ne pre this] r show ?thesis by simp
  qed
qed

text \<open>
  Claim C1, as the code has it. \<open>Autoload.Psr4PathForNamespace\<close> appends the separator to
  the query and, among the non-empty table keys that are a prefix of the augmented query,
  takes the key of greatest length: it returns that key's path when the path is not empty,
  and not-found when the path is empty or when no non-empty key is a prefix. The result
  is the same for every order in which the entries of the table are visited.
\<close>

theorem Autoload_Psr4PathForNamespace_longest:
  assumes "distinct (map fst (Psr4 a))"
  shows "((k, p) \<in> set (Psr4 a) \<and> k \<noteq> [] \<and> prefix k (name @ backslash)
           \<and> (\<forall>k' \<in> fst ` set (Psr4 a). prefix k' (name @ backslash) \<longrightarrow> length k' \<le> length k)
          \<longrightarrow> Autoload_Psr4PathForNamespace a name = (if p = [] then ([], False) else (p, True)))
       \<and> ((\<forall>k' \<in> fst ` set (Psr4 a). k' \<noteq> [] \<longrightarrow> \<not> prefix k' (name @ backslash))
          \<longrightarrow> Autoload_Psr4PathForNamespace a name = ([], False))
       \<and> (distinct (map fst (Psr4 a')) \<and> set (Psr4 a') = set (Psr4 a)
          \<longrightarrow> Autoload_Psr4PathForNamespace a' name = Autoload_Psr4PathForNamespace a name)"
proof (intro conjI impI)
  assume h: "(k, p) \<in> set (Psr4 a) \<and> k \<noteq> [] \<and> prefix k (name @ backslash)
           \<and> (\<forall>k' \<in> fst ` set (Psr4 a). prefix k' (name @ backslash) \<longrightarrow> length k' \<le> length k)"
  then have "Psr4_loop (name @ backslash) (Psr4 a) ([], []) = (k, p)"
    using assms by (intro Psr4_loop_longest) auto
  then show "Autoload_Psr4PathForNamespace a name = (if p = [] then ([], False) else (p, True))"
    by (simp add: Autoload_Psr4PathForNamespace_def)
next
  assume "\<forall>k' \<in> fst ` set (Psr4 a). k' \<noteq> [] \<longrightarrow> \<not> prefix k' (name @ backslash)"
  then have "Psr4_loop (name @ backslash) (Psr4 a) ([], []) = ([], [])"
    by (rule Psr4_loop_none)
  then show "Autoload_Psr4PathForNamespace a name = ([], False)"
    by (simp add: Autoload_Psr4PathForNamespace_def)
next
  assume "distinct (map fst (Psr4 a')) \<and> set (Psr4 a') = set (Psr4 a)"
  then have "Psr4_loop (name @ backslash) (Psr4 a') ([], [])
           = Psr4_loop (name @ backslash) (Psr4 a) ([], [])"
    using assms by (intro Psr4_loop_order) auto
  then show "Autoload_Psr4PathForNamespace a' name = Autoload_Psr4PathForNamespace a name"
    by (simp add: Autoload_Psr4PathForNamespace_def)
qed

theorem Autoload_Psr4PathForNamespace_longest_witness:
  "distinct (map fst (Psr4 \<lparr>Psr4 = [(''My'' @ backslash, ''a''), (''My'' @ backslash @ ''Core'' @ backslash, ''b'')], Files = []\<rparr>))
   \<and> Autoload_Psr4PathForNamespace
        \<lparr>Psr4 = [(''My'' @ backslash, ''a''), (''My'' @ backslash @ ''Core'' @ backslash, ''b'')], Files = []\<rparr>
        (''My'' @ backslash @ ''Core'' @ backslash @ ''Utils'') = (''b'', True)
   \<and> Autoload_Psr4PathForNamespace
        \<lparr>Psr4 = [(''My'' @ backslash @ ''Core'' @ backslash, ''b''), (''My'' @ backslash, ''a'')], Files = []\<rparr>
        (''My'' @ backslash @ ''Core'' @ backslash @ ''Utils'') = (''b'', True)
   \<and> Autoload_Psr4PathForNamespace
        \<lparr>Psr4 = [(''My'' @ backslash, ''a''), (''My'' @ backslash @ ''Core'' @ backslash, ''b'')], Files = []\<rparr>
        ''Your'' = ([], False)"
  using Autoload_Psr4PathForNamespace_longest
    [of "\<lparr>Psr4 = [(''My'' @ backslash, ''a''), (''My'' @ backslash @ ''Core'' @ backslash, ''b'')], Files = []\<rparr>"
        "''My'' @ backslash @ ''Core'' @ backslash" "''b''"
        "''My'' @ backslash @ ''Core'' @ backslash @ ''Utils''"
        "\<lparr>Psr4 = [(''My'' @ backslash @ ''Core'' @ backslash, ''b''), (''My'' @ backslash, ''a'')], Files = []\<rparr>"]
    Autoload_Psr4PathForNamespace_longest
    [of "\<lparr>Psr4 = [(''My'' @ backslash, ''a''), (''My'' @ backslash @ ''Core'' @ backslash, ''b'')], Files = []\<rparr>"
        "[]" "[]" "''Your''"
        "\<lparr>Psr4 = [], Files = []\<rparr>"]
  by (simp add: backslash_def insert_commute)

theorem Autoload_Psr4PathForNamespace_longest_counterexample:
  "(''App'' @ backslash, []) \<in> set (Psr4 \<lparr>Psr4 = [(''App'' @ backslash, [])], Files = []\<rparr>)
   \<and> prefix (''App'' @ backslash) (''App'' @ backslash)
   \<and> Autoload_Psr4PathForNamespace \<lparr>Psr4 = [(''App'' @ backslash, [])], Files = []\<rparr> ''App''
       = ([], False)
   \<and> ([], ''src'') \<in> set (Psr4 \<lparr>Psr4 = [([], ''src'')], Files = []\<rparr>)
   \<and> prefix [] (''App'' @ backslash)
   \<and> Autoload_Psr4PathForNamespace \<lparr>Psr4 = [([], ''src'')], Files = []\<rparr> ''App''
       = ([], False)"
  by (simp add: Autoload_Psr4PathForNamespace_def backslash_def)

text \<open>
  Claim C10. When the longest table key that is a prefix of the augmented query maps to
  the empty string, \<open>Autoload.Psr4PathForNamespace\<close> reports not-found, also when a shorter
  key is a prefix and maps to a path that is not empty.
\<close>

theorem Autoload_Psr4PathForNamespace_empty_path:
  assumes "distinct (map fst (Psr4 a))"
    and "(k, []) \<in> set (Psr4 a)" and "prefix k (name @ backslash)"
    and "\<forall>k' \<in> fst ` set (Psr4 a). prefix k' (name @ backslash) \<longrightarrow> length k' \<le> length k"
  shows "Autoload_Psr4PathForNamespace a name = ([], False)"
proof (cases "k = []")
  case True
  with assms(4) have "\<forall>k' \<in> fst ` set (Psr4 a). k' \<noteq> [] \<longrightarrow> \<not> prefix k' (name @ backslash)"
    by auto
  then have "Psr4_loop (name @ backslash) (Psr4 a) ([], []) = ([], [])"
    by (rule Psr4_loop_none)
  then show ?thesis by (simp add: Autoload_Psr4PathForNamespace_def)
next
  case False
  with assms have "Psr4_loop (name @ backslash) (Psr4 a) ([], []) = (k, [])"
    by (intro Psr4_loop_longest)
  then show ?thesis by (simp add: Autoload_Psr4PathForNamespace_def)
qed

theorem Autoload_Psr4PathForNamespace_empty_path_witness:
  "distinct (map fst (Psr4 \<lparr>Psr4 = [(''My'' @ backslash, ''a''), (''My'' @ backslash @ ''Core'' @ backslash, [])], Files = []\<rparr>))
   \<and> prefix (''My'' @ backslash) (''My'' @ backslash @ ''Core'' @ backslash @ ''Utils'' @ backslash)
   \<and> prefix (''My'' @ backslash @ ''Core'' @ backslash) (''My'' @ backslash @ ''Core'' @ backslash @ ''Utils'' @ backslash)
   \<and> Autoload_Psr4PathForNamespace
        \<lparr>Psr4 = [(''My'' @ backslash, ''a''), (''My'' @ backslash @ ''Core'' @ backslash, [])], Files = []\<rparr>
        (''My'' @ backslash @ ''Core'' @ backslash @ ''Utils'') = ([], False)"
  using Autoload_Psr4PathForNamespace_empty_path
    [of "\<lparr>Psr4 = [(''My'' @ backslash, ''a''), (''My'' @ backslash @ ''Core'' @ backslash, [])], Files = []\<rparr>"
        "''My'' @ backslash @ ''Core'' @ backslash"
        "''My'' @ backslash @ ''Core'' @ backslash @ ''Utils''"]
  by (simp add: backslash_def)

text \<open>
  Claim C7. \<open>Config.Psr4PathForNamespace\<close> tries the primary autoload table first and the
  dev table only when that lookup misses; when both miss it returns not-found. On success
  the path is the base name of the manifest's directory, then \<open>/\<close>, then the path found
  in the table.
\<close>

theorem Config_Psr4PathForNamespace_tables:
  "(snd (Autoload_Psr4PathForNamespace (Autoload c) name)
      \<longrightarrow> Config_Psr4PathForNamespace fp c name =
            (Base fp (RootDir c) @ ''/'' @ fst (Autoload_Psr4PathForNamespace (Autoload c) name), True))
   \<and> (\<not> snd (Autoload_Psr4PathForNamespace (Autoload c) name)
        \<and> snd (Autoload_Psr4PathForNamespace (AutoloadDev c) name)
      \<longrightarrow> Config_Psr4PathForNamespace fp c name =
            (Base fp (RootDir c) @ ''/'' @ fst (Autoload_Psr4PathForNamespace (AutoloadDev c) name), True))
   \<and> (\<not> snd (Autoload_Psr4PathForNamespace (Autoload c) name)
        \<and> \<not> snd (Autoload_Psr4PathForNamespace (AutoloadDev c) name)
      \<longrightarrow> Config_Psr4PathForNamespace fp c name = ([], False))"
  by (cases "Autoload_Psr4PathForNamespace (Autoload c) name";
      cases "Autoload_Psr4PathForNamespace (AutoloadDev c) name")
     (simp add: Config_Psr4PathForNamespace_def Let_def)

theorem Config_Psr4PathForNamespace_tables_witness:
  "Config_Psr4PathForNamespace (unix_filepath ''/'') example_manifest (''My'' @ backslash @ ''Core'')
     = (''app/src'', True)
   \<and> Config_Psr4PathForNamespace (unix_filepath ''/'') example_manifest
       (''My'' @ backslash @ ''Core'' @ backslash @ ''Utils'') = (''app/src'', True)
   \<and> Config_Psr4PathForNamespace (unix_filepath ''/'') example_manifest
       (''My'' @ backslash @ ''Tests'' @ backslash @ ''Unit'') = (''app/tests'', True)
   \<and> Config_Psr4PathForNamespace (unix_filepath ''/'') example_manifest
       (''My'' @ backslash @ ''Other'') = ([], False)"
  using Config_Psr4PathForNamespace_tables
      [of example_manifest "''My'' @ backslash @ ''Core''" "unix_filepath ''/''"]
    Config_Psr4PathForNamespace_tables
      [of example_manifest "''My'' @ backslash @ ''Core'' @ backslash @ ''Utils''" "unix_filepath ''/''"]
    Config_Psr4PathForNamespace_tables
      [of example_manifest "''My'' @ backslash @ ''Tests'' @ backslash @ ''Unit''" "unix_filepath ''/''"]
    Config_Psr4PathForNamespace_tables
      [of example_manifest "''My'' @ backslash @ ''Other''" "unix_filepath ''/''"]
  by (simp add: example_manifest_def zero_Config_def Autoload_Psr4PathForNamespace_def
        backslash_def unix_filepath_def unix_Base_def)

text \<open>
  Claim C9. \<open>ResolveUrl\<close> is idempotent: a second application with the same base leaves
  the entry as the first one left it. An entry that is already resolved, or whose type
  is not \<open>path\<close>, is returned unchanged; a first application to a \<open>path\<close> entry sets
  \<open>Resolved\<close> and rewrites only \<open>Url\<close>, to the cleaned, slash-normalised join of the base
  and the old \<open>Url\<close>.
\<close>

theorem ResolveUrl_idempotent:
  "ResolveUrl fp (ResolveUrl fp e p) p = ResolveUrl fp e p
   \<and> (Resolved e \<or> Type e \<noteq> ''path'' \<longrightarrow> ResolveUrl fp e p = e)
   \<and> (\<not> Resolved e \<and> Type e = ''path'' \<longrightarrow>
        ResolveUrl fp e p = \<lparr>Type = Type e, Url = ToSlash fp (Clean fp (Join fp [p, Url e])),
                              Resolved = True\<rparr>)"
  by (simp add: ResolveUrl_def)

theorem ResolveUrl_idempotent_witness:
  "ResolveUrl (unix_filepath ''/'') \<lparr>Type = ''path'', Url = ''../lib'', Resolved = False\<rparr> ''/proj/app''
     = \<lparr>Type = ''path'', Url = ''/proj/lib'', Resolved = True\<rparr>
   \<and> ResolveUrl (unix_filepath ''/'')
        (ResolveUrl (unix_filepath ''/'') \<lparr>Type = ''path'', Url = ''../lib'', Resolved = False\<rparr> ''/proj/app'')
        ''/proj/app''
     = \<lparr>Type = ''path'', Url = ''/proj/lib'', Resolved = True\<rparr>
   \<and> ResolveUrl (unix_filepath ''/'') \<lparr>Type = ''vcs'', Url = ''../lib'', Resolved = False\<rparr> ''/proj/app''
     = \<lparr>Type = ''vcs'', Url = ''../lib'', Resolved = False\<rparr>"
  using ResolveUrl_idempotent
      [of "unix_filepath ''/''" "\<lparr>Type = ''path'', Url = ''../lib'', Resolved = False\<rparr>" "''/proj/app''"]
    ResolveUrl_idempotent
      [of "unix_filepath ''/''" "\<lparr>Type = ''path'', Url = ''/proj/lib'', Resolved = True\<rparr>" "''/proj/app''"]
    ResolveUrl_idempotent
      [of "unix_filepath ''/''" "\<lparr>Type = ''vcs'', Url = ''../lib'', Resolved = False\<rparr>" "''/proj/app''"]
  by (simp add: unix_filepath_def unix_Join_def unix_Clean_def)

section \<open>Loading a manifest\<close>

text \<open>
  Claim C8. When the bytes decode but the version string does not parse,
  \<open>NewConfigFromData\<close> returns the decoded manifest with every decoded field as it was,
  \<open>Version\<close> absent and \<open>Path\<close> and \<open>RootDir\<close> set, together with an error list that
  holds exactly one finding, whose critical flag is false.
\<close>

theorem NewConfigFromData_version_failure:
  assumes "unmarshal data = Inr decoded" and "NewVersion (RawVersion decoded) = Inl err"
  shows "NewConfigFromData fp unmarshal data configPath =
     (decoded\<lparr>Version := None, Path := Abs fp configPath, RootDir := Dir fp (Abs fp configPath)\<rparr>,
      Some \<lparr>Config = Some (decoded\<lparr>Version := None, Path := Abs fp configPath,
                                     RootDir := Dir fp (Abs fp configPath)\<rparr>),
            Errors = [\<lparr>Msg = version_error_msg err, Critical = False\<rparr>]\<rparr>)"
  using assms by (simp add: NewConfigFromData_def Let_def Add_def Len_def)

theorem NewConfigFromData_version_failure_witness:
  "example_unmarshal ''{}'' = Inr zero_Config
   \<and> NewVersion (RawVersion (zero_Config :: nat Config)) = Inl EmptyInput
   \<and> NewConfigFromData (unix_filepath ''/proj/app'') example_unmarshal ''{}'' ''composer.json'' =
     (zero_Config\<lparr>Path := ''/proj/app/composer.json'', RootDir := ''/proj/app''\<rparr>,
      Some \<lparr>Config = Some (zero_Config\<lparr>Path := ''/proj/app/composer.json'', RootDir := ''/proj/app''\<rparr>),
            Errors = [\<lparr>Msg = ''version is empty'', Critical = False\<rparr>]\<rparr>)"
  using NewConfigFromData_version_failure
    [of example_unmarshal "''{}''" zero_Config EmptyInput "unix_filepath ''/proj/app''" "''composer.json''"]
  by (simp add: example_unmarshal_def zero_Config_def NewVersion_def unix_filepath_def
        unix_Abs_def unix_Join_def unix_Clean_def unix_Dir_def)

section \<open>Rendering an error list\<close>

lemma ConfigErrors_Error_loop_lines:
  "ConfigErrors_Error_loop (Some c) es res =
     Inr (res @ concat (map (\<lambda>e. ''config '' @ Path c @ '': '' @ ConfigError_Error e @ [CHR 0x0A]) es))"
  by (induction es arbitrary: res) simp_all

lemma ConfigErrors_Error_lines:
  "Config ce = Some c \<Longrightarrow> ConfigErrors_Error ce =
     Inr (concat (map (\<lambda>e. ''config '' @ Path c @ '': '' @ ConfigError_Error e @ [CHR 0x0A]) (Errors ce)))"
  by (simp add: ConfigErrors_Error_def ConfigErrors_Error_loop_lines)

text \<open>
  Claim C3 asks that the error list returned when JSON decoding fails renders as text
  without crashing. The code does not: \<open>NewConfigErrors\<close> leaves \<open>Config\<close> nil, the list
  holds one finding, and \<open>Error\<close> dereferences the nil \<open>Config\<close> for it.
\<close>

theorem ConfigErrors_Error_decode_failure:
  assumes "unmarshal data = Inl msg"
  shows "NewConfigFromData fp unmarshal data configPath =
           (zero_Config, Some \<lparr>Config = None, Errors = [\<lparr>Msg = msg, Critical = True\<rparr>]\<rparr>)
       \<and> ConfigErrors_Error \<lparr>Config = None, Errors = [\<lparr>Msg = msg, Critical = True\<rparr>]\<rparr>
           = Inl NilPointerDereference"
  using assms by (simp add: NewConfigFromData_def NewConfigErrors_def ConfigErrors_Error_def)

theorem ConfigErrors_Error_decode_failure_witness:
  "example_unmarshal ''{'' = Inl ''unexpected end of JSON input''
   \<and> NewConfigFromData (unix_filepath ''/proj/app'') example_unmarshal ''{'' ''composer.json'' =
       (zero_Config,
        Some \<lparr>Config = None, Errors = [\<lparr>Msg = ''unexpected end of JSON input'', Critical = True\<rparr>]\<rparr>)
   \<and> ConfigErrors_Error
        (\<lparr>Config = None, Errors = [\<lparr>Msg = ''unexpected end of JSON input'', Critical = True\<rparr>]\<rparr>
          :: nat ConfigErrors)
       = Inl NilPointerDereference"
  using ConfigErrors_Error_decode_failure
    [of example_unmarshal "''{''" "''unexpected end of JSON input''" "unix_filepath ''/proj/app''"
        "''composer.json''"]
  by (simp add: example_unmarshal_def)

section \<open>Running the checks\<close>




end
